theory Spec2Isabelle
  imports Main "HOL-Library.Multiset"
begin

section \<open>The API-keys plugin: data model\<close>

text \<open>
  The development embeds \<^verbatim>\<open>models.py\<close> (class \<^verbatim>\<open>APIKey\<close>) and
  \<^verbatim>\<open>apiKeyManager.py\<close> (class \<^verbatim>\<open>APIKeyManager\<close>). The database table
  \<^verbatim>\<open>api_keys\<close> is an explicit store that every operation takes and returns; an
  exception is a value \<open>Inl e\<close>.

  Python strings are modelled as \<open>string\<close>. Keys and prefixes are ASCII, where
  Python's \<^verbatim>\<open>len\<close> and slicing agree with \<open>length\<close> and \<open>take\<close>.
\<close>

subsection \<open>JSON values of a request payload\<close>

text \<open>
  What \<^verbatim>\<open>json.loads(request.body)\<close> can hand to the manager. A dictionary is an
  association list in which \<open>map_of\<close> finds the value of a key. Numbers with a
  fraction are left out.
\<close>

datatype pyval =
    PNone
  | PBool bool
  | PInt int
  | PStr string
  | PList "pyval list"
  | PDict "(string \<times> pyval) list"

fun type_name :: "pyval \<Rightarrow> string" where
  "type_name PNone = ''NoneType''"
| "type_name (PBool b) = ''bool''"
| "type_name (PInt n) = ''int''"
| "type_name (PStr s) = ''str''"
| "type_name (PList xs) = ''list''"
| "type_name (PDict kvs) = ''dict''"

subsection \<open>Exceptions\<close>

text \<open>
  The handlers of the source tell \<^verbatim>\<open>DoesNotExist\<close> from every other exception,
  and report the others by \<^verbatim>\<open>str(e)\<close>. \<open>Exc m\<close> is any other exception whose
  \<^verbatim>\<open>str\<close> is \<open>m\<close>.
\<close>

datatype error = DoesNotExist | MultipleObjectsReturned | Exc string

fun str_e :: "error \<Rightarrow> string" where
  "str_e DoesNotExist = ''APIKey matching query does not exist.''"
| "str_e MultipleObjectsReturned = ''get() returned more than one APIKey''"
| "str_e (Exc m) = m"

subsection \<open>The table\<close>

type_synonym time = int

text \<open>
  One row of \<^verbatim>\<open>api_keys\<close>. \<open>key_id\<close> is the column \<^verbatim>\<open>id\<close> (the primary key),
  \<open>admin\<close> the column \<^verbatim>\<open>admin_id\<close>.
\<close>

record api_key =
  key_id :: int
  admin :: int
  key_hash :: string
  key_prefix :: string
  name :: string
  created_at :: time
  last_used :: "time option"
  is_active :: bool

text \<open>The rows in insertion order, and the next value of the auto-increment counter.\<close>

record store =
  rows :: "api_key list"
  next_id :: int

subsection \<open>The collaborators outside the repository\<close>

text \<open>
  Library functions the code calls: \<^verbatim>\<open>hashlib.sha256(raw.encode()).hexdigest()\<close>
  (which raises when the string cannot be encoded), the conversion of a lookup value to
  an integer id by the ORM's field (\<^verbatim>\<open>int(value)\<close>, an exception otherwise), and
  \<^verbatim>\<open>str(value)\<close>, which the ORM applies to a value of a text column that is not a
  string.
\<close>

record libs =
  sha256_hexdigest :: "string \<Rightarrow> error + string"
  int_of :: "pyval \<Rightarrow> error + int"
  str_of :: "pyval \<Rightarrow> string"

text \<open>
  What the outside world answers during one call: the result of
  \<^verbatim>\<open>secrets.token_urlsafe(32)\<close>, the clock \<^verbatim>\<open>timezone.now()\<close>, and whether the
  database refuses the write of this call (\<open>Some m\<close>: it raises an error whose
  \<^verbatim>\<open>str\<close> is \<open>m\<close>).
\<close>

record world =
  token_urlsafe :: "error + string"
  now :: time
  db_failure :: "string option"

section \<open>The model class: models.py\<close>

definition generate_key :: "world \<Rightarrow> error + string" where
  "generate_key w =
     (case token_urlsafe w of
        Inl e \<Rightarrow> Inl e
      | Inr t \<Rightarrow> Inr (''cp_'' @ t))"

definition hash_key :: "libs \<Rightarrow> string \<Rightarrow> error + string" where
  "hash_key L raw_key = sha256_hexdigest L raw_key"

definition get_prefix :: "string \<Rightarrow> string" where
  "get_prefix raw_key = (if length raw_key \<ge> 12 then take 12 raw_key else raw_key)"

text \<open>
  \<^verbatim>\<open>self.save(update_fields=['last_used'])\<close>: an \<^verbatim>\<open>UPDATE\<close> of the one column
  in the row of this primary key. The object in memory carries the new time.
\<close>

definition update_last_used :: "world \<Rightarrow> store \<Rightarrow> api_key \<Rightarrow> error + api_key \<times> store" where
  "update_last_used w s k =
     (let k' = k\<lparr>last_used := Some (now w)\<rparr> in
      case db_failure w of
        Some m \<Rightarrow> Inl (Exc m)
      | None \<Rightarrow>
          Inr (k', s\<lparr>rows := map (\<lambda>r. if key_id r = key_id k
                                          then r\<lparr>last_used := Some (now w)\<rparr> else r) (rows s)\<rparr>))"

text \<open>
  \<^verbatim>\<open>cls.objects.create(...)\<close>: an \<^verbatim>\<open>INSERT\<close>. The column \<^verbatim>\<open>name\<close> is not
  nullable and \<^verbatim>\<open>key_hash\<close> is unique, so the database refuses a null name and a
  hash that is already stored. A name that is not a string is stored as its
  \<^verbatim>\<open>str\<close>. The limits on the lengths of the columns are not modelled.
\<close>

definition null_name_msg :: string where
  "null_name_msg = ''Column 'name' cannot be null''"

definition duplicate_hash_msg :: string where
  "duplicate_hash_msg = ''Duplicate entry for key 'key_hash' ''"

definition objects_create ::
  "libs \<Rightarrow> world \<Rightarrow> store \<Rightarrow> int \<Rightarrow> string \<Rightarrow> string \<Rightarrow> pyval \<Rightarrow> error + api_key \<times> store" where
  "objects_create L w s adm h p nm =
     (case db_failure w of
        Some m \<Rightarrow> Inl (Exc m)
      | None \<Rightarrow>
          if nm = PNone then Inl (Exc null_name_msg)
          else if h \<in> set (map key_hash (rows s)) then Inl (Exc duplicate_hash_msg)
          else
            let k = \<lparr> key_id = next_id s, admin = adm, key_hash = h, key_prefix = p,
                      name = (case nm of PStr x \<Rightarrow> x | _ \<Rightarrow> str_of L nm),
                      created_at = now w, last_used = None, is_active = True \<rparr>
            in Inr (k, s\<lparr>rows := rows s @ [k], next_id := next_id s + 1\<rparr>))"

definition create_key ::
  "libs \<Rightarrow> world \<Rightarrow> store \<Rightarrow> int \<Rightarrow> pyval \<Rightarrow> error + (api_key \<times> string) \<times> store" where
  "create_key L w s adm nm =
     (case generate_key w of
        Inl e \<Rightarrow> Inl e
      | Inr raw_key \<Rightarrow>
          (case hash_key L raw_key of
             Inl e \<Rightarrow> Inl e
           | Inr h \<Rightarrow>
               (case objects_create L w s adm h (get_prefix raw_key) nm of
                  Inl e \<Rightarrow> Inl e
                | Inr (k, s') \<Rightarrow> Inr ((k, raw_key), s'))))"

text \<open>
  \<^verbatim>\<open>objects.get(...)\<close>: the one row that satisfies the condition;
  \<^verbatim>\<open>DoesNotExist\<close> when there is none, \<^verbatim>\<open>MultipleObjectsReturned\<close> when there
  are several.
\<close>

definition objects_get :: "(api_key \<Rightarrow> bool) \<Rightarrow> store \<Rightarrow> error + api_key" where
  "objects_get P s =
     (case filter P (rows s) of
        [] \<Rightarrow> Inl DoesNotExist
      | [k] \<Rightarrow> Inr k
      | _ \<Rightarrow> Inl MultipleObjectsReturned)"

text \<open>
  \<^verbatim>\<open>validate_key\<close>. The hash is computed before the \<^verbatim>\<open>try\<close>; inside it, only
  \<^verbatim>\<open>DoesNotExist\<close> is caught.
\<close>

definition validate_key ::
  "libs \<Rightarrow> world \<Rightarrow> store \<Rightarrow> string \<Rightarrow> error + api_key option \<times> store" where
  "validate_key L w s raw_key =
     (if raw_key = [] \<or> take 3 raw_key \<noteq> ''cp_'' then Inr (None, s)
      else
        case hash_key L raw_key of
          Inl e \<Rightarrow> Inl e
        | Inr h \<Rightarrow>
            (case objects_get (\<lambda>r. key_hash r = h \<and> is_active r) s of
               Inl DoesNotExist \<Rightarrow> Inr (None, s)
             | Inl e \<Rightarrow> Inl e
             | Inr k \<Rightarrow>
                 (case update_last_used w s k of
                    Inl DoesNotExist \<Rightarrow> Inr (None, s)
                  | Inl e \<Rightarrow> Inl e
                  | Inr (k', s') \<Rightarrow> Inr (Some k', s'))))"

section \<open>The manager: apiKeyManager.py\<close>

text \<open>The rows of \<^verbatim>\<open>key_list\<close> in \<^verbatim>\<open>listKeys\<close>.\<close>

record key_summary =
  s_id :: int
  s_name :: string
  s_key_preview :: string
  s_created_at :: time
  s_last_used :: "time option"
  s_is_active :: bool

text \<open>
  The JSON bodies the manager answers with: \<open>AjaxPre status error_message\<close>, the
  answer of \<^verbatim>\<open>createKey\<close> (key, id, name, key_prefix, created_at; its status is 1
  and its warning is a constant), of \<^verbatim>\<open>listKeys\<close>, of \<^verbatim>\<open>revokeKey\<close> and of
  \<^verbatim>\<open>deleteKey\<close>.
\<close>

datatype response =
    AjaxPre int string
  | Created string int pyval string time
  | KeyList "key_summary list"
  | Toggled bool
  | Deleted

definition ajaxPre :: "int \<Rightarrow> string \<Rightarrow> response" where
  "ajaxPre status errorMessage = AjaxPre status errorMessage"

fun status :: "response \<Rightarrow> int" where
  "status (AjaxPre st m) = st"
| "status _ = 1"

text \<open>\<^verbatim>\<open>data.get(key, default)\<close>; a payload that is not a dictionary has no such method.\<close>

fun py_get :: "pyval \<Rightarrow> string \<Rightarrow> pyval \<Rightarrow> error + pyval" where
  "py_get (PDict kvs) k d = Inr (case map_of kvs k of Some v \<Rightarrow> v | None \<Rightarrow> d)"
| "py_get v k d =
     Inl (Exc (CHR 0x27 # type_name v @ CHR 0x27 # '' object has no attribute 'get'' @ [CHR 0x27]))"

text \<open>
  The two handlers of \<^verbatim>\<open>revokeKey\<close> and \<^verbatim>\<open>deleteKey\<close>:
  \<^verbatim>\<open>except APIKey.DoesNotExist\<close>, then \<^verbatim>\<open>except Exception as e\<close>.
\<close>

fun handle :: "error \<Rightarrow> response" where
  "handle DoesNotExist = ajaxPre 0 ''API key not found''"
| "handle e = ajaxPre 0 (str_e e)"

definition createKey :: "libs \<Rightarrow> world \<Rightarrow> store \<Rightarrow> int \<Rightarrow> pyval \<Rightarrow> response \<times> store" where
  "createKey L w s adm data =
     (case py_get data ''name'' (PStr ''Unnamed Key'') of
        Inl e \<Rightarrow> (ajaxPre 0 (str_e e), s)
      | Inr nm \<Rightarrow>
          (case create_key L w s adm nm of
             Inl e \<Rightarrow> (ajaxPre 0 (str_e e), s)
           | Inr ((k, raw_key), s') \<Rightarrow>
               (Created raw_key (key_id k) nm (key_prefix k) (created_at k), s')))"

definition summary :: "api_key \<Rightarrow> key_summary" where
  "summary k =
     \<lparr> s_id = key_id k, s_name = name k, s_key_preview = key_prefix k @ ''...'',
       s_created_at = created_at k, s_last_used = last_used k, s_is_active = is_active k \<rparr>"

text \<open>
  \<^verbatim>\<open>APIKey.objects.filter(admin=self.admin)\<close> in the order of
  \<^verbatim>\<open>Meta.ordering = ['-created_at']\<close>. The database leaves the order of rows with
  the same creation time open; the model keeps them in insertion order.
\<close>

definition objects_filter_admin :: "store \<Rightarrow> int \<Rightarrow> api_key list" where
  "objects_filter_admin s adm =
     sort_key (\<lambda>k. - created_at k) (filter (\<lambda>k. admin k = adm) (rows s))"

definition listKeys :: "store \<Rightarrow> int \<Rightarrow> response \<times> store" where
  "listKeys s adm = (KeyList (map summary (objects_filter_admin s adm)), s)"

text \<open>
  \<^verbatim>\<open>APIKey.objects.get(id=key_id, admin=self.admin)\<close>. A lookup with
  \<^verbatim>\<open>id=None\<close> is the query \<^verbatim>\<open>id IS NULL\<close>, which no row satisfies; any
  other value is converted to an integer by the field, which may raise.
\<close>

definition get_by_id :: "libs \<Rightarrow> store \<Rightarrow> pyval \<Rightarrow> int \<Rightarrow> error + api_key" where
  "get_by_id L s key_id_v adm =
     (case key_id_v of
        PNone \<Rightarrow> Inl DoesNotExist
      | PInt n \<Rightarrow> objects_get (\<lambda>r. key_id r = n \<and> admin r = adm) s
      | v \<Rightarrow>
          (case int_of L v of
             Inl e \<Rightarrow> Inl e
           | Inr n \<Rightarrow> objects_get (\<lambda>r. key_id r = n \<and> admin r = adm) s))"

text \<open>\<^verbatim>\<open>api_key.save()\<close>: an \<^verbatim>\<open>UPDATE\<close> of every column in the row of this primary key.\<close>

definition save :: "world \<Rightarrow> store \<Rightarrow> api_key \<Rightarrow> error + store" where
  "save w s k =
     (case db_failure w of
        Some m \<Rightarrow> Inl (Exc m)
      | None \<Rightarrow> Inr (s\<lparr>rows := map (\<lambda>r. if key_id r = key_id k then k else r) (rows s)\<rparr>))"

text \<open>\<^verbatim>\<open>api_key.delete()\<close>: a \<^verbatim>\<open>DELETE\<close> of the row of this primary key.\<close>

definition delete :: "world \<Rightarrow> store \<Rightarrow> api_key \<Rightarrow> error + store" where
  "delete w s k =
     (case db_failure w of
        Some m \<Rightarrow> Inl (Exc m)
      | None \<Rightarrow> Inr (s\<lparr>rows := filter (\<lambda>r. key_id r \<noteq> key_id k) (rows s)\<rparr>))"

definition revokeKey :: "libs \<Rightarrow> world \<Rightarrow> store \<Rightarrow> int \<Rightarrow> pyval \<Rightarrow> response \<times> store" where
  "revokeKey L w s adm data =
     (case py_get data ''keyID'' PNone of
        Inl e \<Rightarrow> (handle e, s)
      | Inr key_id_v \<Rightarrow>
          (case get_by_id L s key_id_v adm of
             Inl e \<Rightarrow> (handle e, s)
           | Inr k \<Rightarrow>
               (let k' = k\<lparr>is_active := \<not> is_active k\<rparr> in
                case save w s k' of
                  Inl e \<Rightarrow> (handle e, s)
                | Inr s' \<Rightarrow> (Toggled (is_active k'), s'))))"

definition deleteKey :: "libs \<Rightarrow> world \<Rightarrow> store \<Rightarrow> int \<Rightarrow> pyval \<Rightarrow> response \<times> store" where
  "deleteKey L w s adm data =
     (case py_get data ''keyID'' PNone of
        Inl e \<Rightarrow> (handle e, s)
      | Inr key_id_v \<Rightarrow>
          (case get_by_id L s key_id_v adm of
             Inl e \<Rightarrow> (handle e, s)
           | Inr k \<Rightarrow>
               (case delete w s k of
                  Inl e \<Rightarrow> (handle e, s)
                | Inr s' \<Rightarrow> (Deleted, s'))))"

section \<open>Invariant of the table\<close>

text \<open>
  The primary key and the hash are unique, and every id in use lies below the
  auto-increment counter.
\<close>

definition wf_store :: "store \<Rightarrow> bool" where
  "wf_store s \<longleftrightarrow>
     distinct (map key_id (rows s)) \<and> distinct (map key_hash (rows s)) \<and>
     list_all (\<lambda>r. key_id r < next_id s) (rows s)"

section \<open>An example installation\<close>

text \<open>
  Three keys as \<^verbatim>\<open>generate_key\<close> produces them (\<^verbatim>\<open>cp_\<close> and 43 characters
  of URL-safe base64) with their SHA-256 digests, the third sharing its first twelve
  characters with the first; two administrators; and library functions tabulated on the
  values the examples use.
\<close>

definition ex_token1 :: string where
  "ex_token1 = ''AAECAwQFBgcICQoLDA0ODxAREhMUFRYXGBkaGxwdHh8''"

definition ex_token2 :: string where
  "ex_token2 = ''yMnKy8zNzs_Q0dLT1NXW19jZ2tvc3d7f4OHi4-Tl5uc''"

definition ex_token3 :: string where
  "ex_token3 = ''AAECAwQFBzzz9_-LDA0ODxAREhMUFRYXGBkaGxwdHh8''"

definition ex_raw1 :: string where
  "ex_raw1 = ''cp_AAECAwQFBgcICQoLDA0ODxAREhMUFRYXGBkaGxwdHh8''"

definition ex_raw2 :: string where
  "ex_raw2 = ''cp_yMnKy8zNzs_Q0dLT1NXW19jZ2tvc3d7f4OHi4-Tl5uc''"

definition ex_raw3 :: string where
  "ex_raw3 = ''cp_AAECAwQFBzzz9_-LDA0ODxAREhMUFRYXGBkaGxwdHh8''"

definition ex_hash1 :: string where
  "ex_hash1 = ''4adf67c89b5e28d16890000f1b121c73dfef9180d05834b53b0e2f4afebda2e2''"

definition ex_hash2 :: string where
  "ex_hash2 = ''ef5b2b8f2d191beec24c7b70a71fd40d5fcc4367089bec469b590289eb51fea3''"

definition ex_hash3 :: string where
  "ex_hash3 = ''00ca9652c341d885b2e9ca234ec4a61bad6bda6cfba54117cff9ab6b81dad630''"

definition ex_sha256 :: "string \<Rightarrow> error + string" where
  "ex_sha256 x =
     (if x = ex_raw1 then Inr ex_hash1
      else if x = ex_raw2 then Inr ex_hash2
      else if x = ex_raw3 then Inr ex_hash3
      else Inl (Exc ''digest not tabulated''))"

definition ex_int_of :: "pyval \<Rightarrow> error + int" where
  "ex_int_of v =
     (case v of
        PBool b \<Rightarrow> Inr (if b then 1 else 0)
      | PStr x \<Rightarrow>
          (if x = ''1'' then Inr 1 else if x = ''2'' then Inr 2
           else Inl (Exc (''Field 'id' expected a number but got '' @ CHR 0x27 # x @ CHR 0x27 # ''.'')))
      | _ \<Rightarrow> Inl (Exc (''Field 'id' expected a number but got a '' @ type_name v @ ''.'')))"

definition ex_str_of :: "pyval \<Rightarrow> string" where
  "ex_str_of v =
     (case v of
        PNone \<Rightarrow> ''None''
      | PBool b \<Rightarrow> (if b then ''True'' else ''False'')
      | PStr x \<Rightarrow> x
      | _ \<Rightarrow> type_name v)"

definition ex_libs :: libs where
  "ex_libs = \<lparr> sha256_hexdigest = ex_sha256, int_of = ex_int_of, str_of = ex_str_of \<rparr>"

text \<open>A library whose digest raises.\<close>

definition ex_libs_no_digest :: libs where
  "ex_libs_no_digest =
     ex_libs\<lparr>sha256_hexdigest := (\<lambda>x. Inl (Exc ''unsupported hash type sha256''))\<rparr>"

definition ex_world1 :: world where
  "ex_world1 = \<lparr> token_urlsafe = Inr ex_token1, now = 1000, db_failure = None \<rparr>"

definition ex_world2 :: world where
  "ex_world2 = \<lparr> token_urlsafe = Inr ex_token2, now = 2000, db_failure = None \<rparr>"

definition ex_world3 :: world where
  "ex_world3 = \<lparr> token_urlsafe = Inr ex_token3, now = 3000, db_failure = None \<rparr>"

definition ex_world_down :: world where
  "ex_world_down =
     \<lparr> token_urlsafe = Inr ex_token2, now = 3000,
       db_failure = Some ''MySQL server has gone away'' \<rparr>"

definition ex_world_no_entropy :: world where
  "ex_world_no_entropy =
     \<lparr> token_urlsafe = Inl (Exc ''urandom is not available''), now = 3000, db_failure = None \<rparr>"

definition ex_row1 :: api_key where
  "ex_row1 =
     \<lparr> key_id = 1, admin = 1, key_hash = ex_hash1, key_prefix = ''cp_AAECAwQFB'',
       name = ''CI Token'', created_at = 1000, last_used = None, is_active = True \<rparr>"

definition ex_row2 :: api_key where
  "ex_row2 =
     \<lparr> key_id = 2, admin = 2, key_hash = ex_hash2, key_prefix = ''cp_yMnKy8zNz'',
       name = ''Unnamed Key'', created_at = 2000, last_used = None, is_active = True \<rparr>"

definition ex_row3 :: api_key where
  "ex_row3 =
     \<lparr> key_id = 3, admin = 1, key_hash = ex_hash3, key_prefix = ''cp_AAECAwQFB'',
       name = ''Deploy'', created_at = 3000, last_used = None, is_active = True \<rparr>"

definition ex_row1_off :: api_key where
  "ex_row1_off = ex_row1\<lparr>is_active := False\<rparr>"

definition ex_empty :: store where
  "ex_empty = \<lparr> rows = [], next_id = 1 \<rparr>"

definition ex_store1 :: store where
  "ex_store1 = \<lparr> rows = [ex_row1], next_id = 2 \<rparr>"

definition ex_store1_off :: store where
  "ex_store1_off = \<lparr> rows = [ex_row1_off], next_id = 2 \<rparr>"

definition ex_store2 :: store where
  "ex_store2 = \<lparr> rows = [ex_row1, ex_row2], next_id = 3 \<rparr>"

definition ex_store3 :: store where
  "ex_store3 = \<lparr> rows = [ex_row1, ex_row2, ex_row3], next_id = 4 \<rparr>"

section \<open>Unfolding the model\<close>

lemmas ex_defs =
  ex_token1_def ex_token2_def ex_raw1_def ex_raw2_def ex_hash1_def ex_hash2_def
  ex_sha256_def ex_int_of_def ex_str_of_def ex_libs_def ex_world1_def ex_world2_def
  ex_world_down_def ex_world_no_entropy_def ex_row1_def ex_row2_def ex_empty_def
  ex_store1_def ex_store2_def ex_row1_off_def ex_store1_off_def ex_libs_no_digest_def
  ex_token3_def ex_raw3_def ex_hash3_def ex_world3_def ex_row3_def ex_store3_def

lemmas model_defs =
  generate_key_def hash_key_def get_prefix_def update_last_used_def objects_create_def
  create_key_def objects_get_def validate_key_def ajaxPre_def createKey_def summary_def
  objects_filter_admin_def listKeys_def get_by_id_def save_def delete_def revokeKey_def
  deleteKey_def wf_store_def null_name_msg_def duplicate_hash_msg_def Let_def

section \<open>Lookups\<close>

lemma filter_distinct_key:
  "distinct (map f xs) \<Longrightarrow> x \<in> set xs \<Longrightarrow> filter (\<lambda>y. f y = f x) xs = [x]"
proof (induction xs)
  case Nil
  then show ?case by simp
next
  case (Cons a xs)
  show ?case
  proof (cases "a = x")
    case True
    from Cons.prems(1) True have "f x \<notin> f ` set xs" by simp
    then have "\<forall>y\<in>set xs. f y \<noteq> f x" by (metis imageI)
    then have "filter (\<lambda>y. f y = f x) xs = []"
      by (simp add: filter_empty_conv)
    with True show ?thesis by simp
  next
    case False
    with Cons.prems have xin: "x \<in> set xs" by simp
    with Cons.prems(1) have "f a \<noteq> f x" by auto
    with Cons.IH Cons.prems(1) xin show ?thesis by simp
  qed
qed

lemma objects_get_single: "filter P (rows s) = [k] \<Longrightarrow> objects_get P s = Inr k"
  by (simp add: objects_get_def)

lemma objects_get_none: "filter P (rows s) = [] \<Longrightarrow> objects_get P s = Inl DoesNotExist"
  by (simp add: objects_get_def)

lemma objects_get_Inr: "objects_get P s = Inr k \<Longrightarrow> filter P (rows s) = [k]"
  by (auto simp: objects_get_def split: list.splits)

lemma objects_get_mem: "objects_get P s = Inr k \<Longrightarrow> k \<in> set (rows s) \<and> P k"
proof -
  assume "objects_get P s = Inr k"
  then have "filter P (rows s) = [k]" by (rule objects_get_Inr)
  then have "k \<in> set (filter P (rows s))" by simp
  then show ?thesis by simp
qed

section \<open>Creating a key\<close>

text \<open>What a successful \<^verbatim>\<open>create_key\<close> has done.\<close>

lemma create_key_Inr:
  "create_key L w s adm nm = Inr ((k, raw_key), s') \<Longrightarrow>
     (\<exists>t. token_urlsafe w = Inr t \<and> raw_key = ''cp_'' @ t) \<and>
     sha256_hexdigest L raw_key = Inr (key_hash k) \<and>
     db_failure w = None \<and> nm \<noteq> PNone \<and>
     key_hash k \<notin> set (map key_hash (rows s)) \<and>
     k = \<lparr> key_id = next_id s, admin = adm, key_hash = key_hash k,
           key_prefix = get_prefix raw_key,
           name = (case nm of PStr x \<Rightarrow> x | _ \<Rightarrow> str_of L nm),
           created_at = now w, last_used = None, is_active = True \<rparr> \<and>
     s' = s\<lparr>rows := rows s @ [k], next_id := next_id s + 1\<rparr>"
  by (auto simp: create_key_def generate_key_def hash_key_def objects_create_def Let_def
      split: sum.splits option.splits if_splits)

lemma get_prefix_take: "get_prefix raw_key = take 12 raw_key"
  by (simp add: get_prefix_def)

lemma ex_create_key1:
  "create_key ex_libs ex_world1 ex_empty 1 (PStr ''CI Token'') = Inr ((ex_row1, ex_raw1), ex_store1)"
  by (simp add: model_defs ex_defs)

text \<open>
  Claim C9. \<^verbatim>\<open>get_prefix\<close> returns the first 12 characters of a key of at least
  12 characters and the whole key when it is shorter; the prefix stored by
  \<^verbatim>\<open>create_key\<close> is the first 12 characters of the raw key it returns.
\<close>

theorem get_prefix_first_12:
  "(length raw_key \<ge> 12 \<longrightarrow> get_prefix raw_key = take 12 raw_key) \<and>
   (length raw_key < 12 \<longrightarrow> get_prefix raw_key = raw_key) \<and>
   (create_key L w s adm nm = Inr ((k, raw), s') \<longrightarrow>
      k \<in> set (rows s') \<and> key_prefix k = take 12 raw)"
proof (intro conjI impI)
  assume c: "create_key L w s adm nm = Inr ((k, raw), s')"
  from create_key_Inr [OF c] have "key_prefix k = get_prefix raw"
    by (metis api_key.select_convs(4))
  then show "key_prefix k = take 12 raw" by (simp add: get_prefix_take)
  from create_key_Inr [OF c] have "rows s' = rows s @ [k]" by simp
  then show "k \<in> set (rows s')" by simp
qed (simp_all add: get_prefix_def)

theorem get_prefix_first_12_witness:
  "get_prefix ex_raw1 = ''cp_AAECAwQFB'' \<and> get_prefix ''cp_AAEC'' = ''cp_AAEC'' \<and>
   create_key ex_libs ex_world1 ex_empty 1 (PStr ''CI Token'') = Inr ((ex_row1, ex_raw1), ex_store1) \<and>
   ex_row1 \<in> set (rows ex_store1) \<and> key_prefix ex_row1 = take 12 ex_raw1"
  using get_prefix_first_12 [where raw_key = ex_raw1 and L = ex_libs and w = ex_world1
      and s = ex_empty and adm = 1 and nm = "PStr ''CI Token''" and k = ex_row1
      and raw = ex_raw1 and s' = ex_store1]
    get_prefix_first_12 [where raw_key = "''cp_AAEC''"]
  by (simp add: ex_create_key1) (simp add: ex_defs)

section \<open>Validating a key\<close>

lemma validate_key_empty: "validate_key L w s [] = Inr (None, s)"
  by (simp add: validate_key_def)

lemma validate_key_no_prefix:
  "take 3 raw_key \<noteq> ''cp_'' \<Longrightarrow> validate_key L w s raw_key = Inr (None, s)"
  by (simp add: validate_key_def)

lemma validate_key_unmatched:
  assumes "hash_key L raw_key = Inr h"
    and "filter (\<lambda>r. key_hash r = h \<and> is_active r) (rows s) = []"
  shows "validate_key L w s raw_key = Inr (None, s)"
  using assms by (simp add: validate_key_def objects_get_none)

lemma validate_key_matched:
  assumes "raw_key \<noteq> []" and "take 3 raw_key = ''cp_''"
    and "hash_key L raw_key = Inr h"
    and "filter (\<lambda>r. key_hash r = h \<and> is_active r) (rows s) = [k]"
  shows "validate_key L w s raw_key =
           (case update_last_used w s k of
              Inl DoesNotExist \<Rightarrow> Inr (None, s)
            | Inl e \<Rightarrow> Inl e
            | Inr (k', s') \<Rightarrow> Inr (Some k', s'))"
  using assms by (simp add: validate_key_def objects_get_single)

lemma validate_key_Some:
  assumes "validate_key L w s raw_key = Inr (Some k', s')"
  shows "\<exists>k h. raw_key \<noteq> [] \<and> take 3 raw_key = ''cp_'' \<and> hash_key L raw_key = Inr h \<and>
           filter (\<lambda>r. key_hash r = h \<and> is_active r) (rows s) = [k] \<and>
           db_failure w = None \<and>
           k' = k\<lparr>last_used := Some (now w)\<rparr> \<and>
           s' = s\<lparr>rows := map (\<lambda>r. if key_id r = key_id k
                                     then r\<lparr>last_used := Some (now w)\<rparr> else r) (rows s)\<rparr>"
proof -
  from assms have ne: "raw_key \<noteq> []" and pre: "take 3 raw_key = ''cp_''"
    by (auto simp: validate_key_def split: if_splits)
  from assms ne pre obtain h where h: "hash_key L raw_key = Inr h"
    by (auto simp: validate_key_def split: sum.splits)
  from assms ne pre h obtain k where
    k: "objects_get (\<lambda>r. key_hash r = h \<and> is_active r) s = Inr k"
    by (auto simp: validate_key_def split: sum.splits error.splits)
  from assms ne pre h k have
    u: "update_last_used w s k = Inr (k', s')"
    by (auto simp: validate_key_def split: sum.splits error.splits)
  then have "db_failure w = None \<and> k' = k\<lparr>last_used := Some (now w)\<rparr> \<and>
     s' = s\<lparr>rows := map (\<lambda>r. if key_id r = key_id k
                                     then r\<lparr>last_used := Some (now w)\<rparr> else r) (rows s)\<rparr>"
    by (auto simp: update_last_used_def Let_def split: option.splits)
  with ne pre h objects_get_Inr [OF k] show ?thesis by blast
qed

text \<open>
  Claim C2. \<^verbatim>\<open>validate_key\<close> answers \<^verbatim>\<open>None\<close>, and leaves the table as it is, for
  the empty string, for a string that does not start with \<^verbatim>\<open>cp_\<close>, for a key whose
  digest is not stored, and for a key whose digest is that of a stored inactive row. When
  it answers a row, that row is stored, is active and carries the digest of the key.
\<close>

theorem validate_key_no_match:
  "validate_key L w s [] = Inr (None, s) \<and>
   (take 3 raw_key \<noteq> ''cp_'' \<longrightarrow> validate_key L w s raw_key = Inr (None, s)) \<and>
   (hash_key L raw_key = Inr h \<and> h \<notin> set (map key_hash (rows s)) \<longrightarrow>
      validate_key L w s raw_key = Inr (None, s)) \<and>
   (wf_store s \<and> hash_key L raw_key = Inr h \<and> r \<in> set (rows s) \<and> key_hash r = h \<and>
    \<not> is_active r \<longrightarrow> validate_key L w s raw_key = Inr (None, s)) \<and>
   (validate_key L w s raw_key = Inr (Some k', s') \<longrightarrow>
      (\<exists>k \<in> set (rows s). is_active k \<and> hash_key L raw_key = Inr (key_hash k) \<and>
         k' = k\<lparr>last_used := Some (now w)\<rparr>))"
proof (intro conjI impI)
  show "validate_key L w s [] = Inr (None, s)" by (rule validate_key_empty)
next
  assume "take 3 raw_key \<noteq> ''cp_''"
  then show "validate_key L w s raw_key = Inr (None, s)" by (rule validate_key_no_prefix)
next
  assume a: "hash_key L raw_key = Inr h \<and> h \<notin> set (map key_hash (rows s))"
  then have "filter (\<lambda>r. key_hash r = h \<and> is_active r) (rows s) = []"
    by (auto simp: filter_empty_conv)
  with a show "validate_key L w s raw_key = Inr (None, s)"
    by (simp add: validate_key_unmatched)
next
  assume a: "wf_store s \<and> hash_key L raw_key = Inr h \<and> r \<in> set (rows s) \<and> key_hash r = h \<and>
    \<not> is_active r"
  then have d: "distinct (map key_hash (rows s))" by (simp add: wf_store_def)
  from a have rin: "r \<in> set (rows s)" and rh: "key_hash r = h" and ri: "\<not> is_active r"
    by simp_all
  have "filter (\<lambda>y. key_hash y = key_hash r) (rows s) = [r]"
    using d rin by (rule filter_distinct_key)
  then have "filter is_active (filter (\<lambda>y. key_hash y = key_hash r) (rows s)) = []"
    using ri by simp
  then have "filter (\<lambda>y. key_hash y = h \<and> is_active y) (rows s) = []"
    using rh by (simp add: conj_commute)
  with a show "validate_key L w s raw_key = Inr (None, s)"
    by (simp add: validate_key_unmatched)
next
  assume "validate_key L w s raw_key = Inr (Some k', s')"
  from validate_key_Some [OF this] obtain k h where
    h: "hash_key L raw_key = Inr h"
    and f: "filter (\<lambda>r. key_hash r = h \<and> is_active r) (rows s) = [k]"
    and k': "k' = k\<lparr>last_used := Some (now w)\<rparr>" by blast
  from f have "k \<in> set (filter (\<lambda>r. key_hash r = h \<and> is_active r) (rows s))" by simp
  then have "k \<in> set (rows s) \<and> key_hash k = h \<and> is_active k" by simp
  with h k' show "\<exists>k \<in> set (rows s). is_active k \<and> hash_key L raw_key = Inr (key_hash k) \<and>
         k' = k\<lparr>last_used := Some (now w)\<rparr>" by blast
qed

theorem validate_key_no_match_witness:
  "take 3 ''xy_AAECAwQFBgcI'' \<noteq> ''cp_'' \<and>
   validate_key ex_libs ex_world2 ex_store1 ''xy_AAECAwQFBgcI'' = Inr (None, ex_store1) \<and>
   hash_key ex_libs ex_raw2 = Inr ex_hash2 \<and> ex_hash2 \<notin> set (map key_hash (rows ex_store1)) \<and>
   validate_key ex_libs ex_world2 ex_store1 ex_raw2 = Inr (None, ex_store1) \<and>
   wf_store ex_store1_off \<and> hash_key ex_libs ex_raw1 = Inr ex_hash1 \<and>
   ex_row1_off \<in> set (rows ex_store1_off) \<and> key_hash ex_row1_off = ex_hash1 \<and>
   \<not> is_active ex_row1_off \<and>
   validate_key ex_libs ex_world2 ex_store1_off ex_raw1 = Inr (None, ex_store1_off) \<and>
   validate_key ex_libs ex_world2 ex_store1 ex_raw1 =
     Inr (Some (ex_row1\<lparr>last_used := Some 2000\<rparr>),
          \<lparr>rows = [ex_row1\<lparr>last_used := Some 2000\<rparr>], next_id = 2\<rparr>) \<and>
   (\<exists>k \<in> set (rows ex_store1). is_active k \<and> hash_key ex_libs ex_raw1 = Inr (key_hash k) \<and>
      ex_row1\<lparr>last_used := Some 2000\<rparr> = k\<lparr>last_used := Some (now ex_world2)\<rparr>)"
  using validate_key_no_match [where L = ex_libs and w = ex_world2 and s = ex_store1
      and raw_key = "''xy_AAECAwQFBgcI''"]
    validate_key_no_match [where L = ex_libs and w = ex_world2 and s = ex_store1
      and raw_key = ex_raw2 and h = ex_hash2]
    validate_key_no_match [where L = ex_libs and w = ex_world2 and s = ex_store1_off
      and raw_key = ex_raw1 and h = ex_hash1 and r = ex_row1_off]
    validate_key_no_match [where L = ex_libs and w = ex_world2 and s = ex_store1
      and raw_key = ex_raw1 and k' = "ex_row1\<lparr>last_used := Some 2000\<rparr>"
      and s' = "\<lparr>rows = [ex_row1\<lparr>last_used := Some 2000\<rparr>], next_id = 2\<rparr>"]
  by (simp add: model_defs ex_defs)

section \<open>A created key validates\<close>

lemma createKey_Created:
  "createKey L w s adm data = (Created raw_key i nm p t, s') \<Longrightarrow>
     \<exists>k. py_get data ''name'' (PStr ''Unnamed Key'') = Inr nm \<and>
         create_key L w s adm nm = Inr ((k, raw_key), s') \<and>
         i = key_id k \<and> p = key_prefix k \<and> t = created_at k"
  by (auto simp: createKey_def ajaxPre_def split: sum.splits)



section \<open>Validation when the write of the last use fails\<close>

lemma stored_active_unique:
  assumes "wf_store s" and "k \<in> set (rows s)" and "is_active k"
  shows "filter (\<lambda>r. key_hash r = key_hash k \<and> is_active r) (rows s) = [k]"
proof -
  from assms(1) have "distinct (map key_hash (rows s))" by (simp add: wf_store_def)
  then have "filter (\<lambda>y. key_hash y = key_hash k) (rows s) = [k]"
    using assms(2) by (rule filter_distinct_key)
  then have "filter is_active (filter (\<lambda>y. key_hash y = key_hash k) (rows s)) = [k]"
    using assms(3) by simp
  then show ?thesis by (simp add: conj_commute)
qed

text \<open>
  Claim C3. \<^verbatim>\<open>validate_key\<close> is to return the matched key also when the update of
  \<^verbatim>\<open>last_used\<close> fails; its docstring promises the key for every valid and active
  key, and \<^verbatim>\<open>None\<close> otherwise. The source does not keep this: the update runs inside
  a \<^verbatim>\<open>try\<close> that catches \<^verbatim>\<open>DoesNotExist\<close> only, where every operation of the
  manager catches \<^verbatim>\<open>Exception\<close>. For the stored active key of the example and a
  database that refuses the write, the call raises the error of the database.
\<close>

theorem failed_write_raises:
  "wf_store ex_store1 \<and> ex_row1 \<in> set (rows ex_store1) \<and> is_active ex_row1 \<and>
   hash_key ex_libs ex_raw1 = Inr (key_hash ex_row1) \<and>
   db_failure ex_world_down = Some ''MySQL server has gone away'' \<and>
   validate_key ex_libs ex_world_down ex_store1 ex_raw1 = Inl (Exc ''MySQL server has gone away'')"
  by (simp add: model_defs ex_defs)

text \<open>
  The same holds for every stored active key whose raw key is presented: the source
  returns the key, with the new \<^verbatim>\<open>last_used\<close>, when the update succeeds, and raises the
  error of the database when the update fails. In neither case is the answer
  \<^verbatim>\<open>None\<close>.
\<close>

lemma validate_key_stored_active:
  assumes "wf_store s" and "k \<in> set (rows s)" and "is_active k"
    and "take 3 raw_key = ''cp_''" and "hash_key L raw_key = Inr (key_hash k)"
  shows "(db_failure w = None \<longrightarrow>
            (\<exists>s'. validate_key L w s raw_key = Inr (Some (k\<lparr>last_used := Some (now w)\<rparr>), s'))) \<and>
         (\<forall>m. db_failure w = Some m \<longrightarrow> validate_key L w s raw_key = Inl (Exc m)) \<and>
         (\<forall>s'. validate_key L w s raw_key \<noteq> Inr (None, s'))"
proof -
  from assms(4) have ne: "raw_key \<noteq> []" by auto
  note v = validate_key_matched [OF ne assms(4) assms(5) stored_active_unique [OF assms(1-3)]]
  show ?thesis
  proof (cases "db_failure w")
    case None
    with v show ?thesis by (simp add: update_last_used_def Let_def)
  next
    case (Some m)
    with v show ?thesis by (simp add: update_last_used_def Let_def)
  qed
qed

lemma validate_key_stored_active_example:
  "wf_store ex_store1 \<and> ex_row1 \<in> set (rows ex_store1) \<and> is_active ex_row1 \<and>
   take 3 ex_raw1 = ''cp_'' \<and> hash_key ex_libs ex_raw1 = Inr (key_hash ex_row1) \<and>
   db_failure ex_world2 = None \<and>
   (\<exists>s'. validate_key ex_libs ex_world2 ex_store1 ex_raw1 =
      Inr (Some (ex_row1\<lparr>last_used := Some (now ex_world2)\<rparr>), s')) \<and>
   db_failure ex_world_down = Some ''MySQL server has gone away'' \<and>
   validate_key ex_libs ex_world_down ex_store1 ex_raw1 = Inl (Exc ''MySQL server has gone away'')"
proof -
  have h: "wf_store ex_store1" "ex_row1 \<in> set (rows ex_store1)" "is_active ex_row1"
    "take 3 ex_raw1 = ''cp_''" "hash_key ex_libs ex_raw1 = Inr (key_hash ex_row1)"
    by (simp_all add: model_defs ex_defs)
  have d: "db_failure ex_world2 = None"
    "db_failure ex_world_down = Some ''MySQL server has gone away''"
    by (simp_all add: ex_defs)
  from validate_key_stored_active [OF h, of ex_world2]
    validate_key_stored_active [OF h, of ex_world_down] h d
  show ?thesis by simp
qed

section \<open>Creation is all or nothing\<close>

lemma createKey_generation_fails:
  assumes "token_urlsafe w = Inl e"
  shows "snd (createKey L w s adm data) = s \<and> status (fst (createKey L w s adm data)) = 0 \<and>
         (\<forall>nm. py_get data ''name'' (PStr ''Unnamed Key'') = Inr nm \<longrightarrow>
            createKey L w s adm data = (AjaxPre 0 (str_e e), s))"
  using assms
  by (auto simp: createKey_def create_key_def generate_key_def ajaxPre_def split: sum.splits)

lemma createKey_digest_fails:
  assumes "token_urlsafe w = Inr t" and "hash_key L (''cp_'' @ t) = Inl e"
  shows "snd (createKey L w s adm data) = s \<and> status (fst (createKey L w s adm data)) = 0 \<and>
         (\<forall>nm. py_get data ''name'' (PStr ''Unnamed Key'') = Inr nm \<longrightarrow>
            createKey L w s adm data = (AjaxPre 0 (str_e e), s))"
  using assms
  by (auto simp: createKey_def create_key_def generate_key_def ajaxPre_def split: sum.splits)

lemma createKey_cases:
  assumes "createKey L w s adm data = (resp, s')"
  shows "(\<exists>m. resp = AjaxPre 0 m \<and> s' = s) \<or>
         (\<exists>raw_key k nm. resp = Created raw_key (key_id k) nm (key_prefix k) (created_at k) \<and>
            rows s' = rows s @ [k] \<and> next_id s' = next_id s + 1 \<and>
            hash_key L raw_key = Inr (key_hash k) \<and> key_prefix k = take 12 raw_key \<and>
            key_id k = next_id s \<and> admin k = adm \<and> created_at k = now w \<and>
            last_used k = None \<and> is_active k)"
proof (cases "py_get data ''name'' (PStr ''Unnamed Key'')")
  case (Inl e)
  with assms show ?thesis by (auto simp: createKey_def ajaxPre_def)
next
  case (Inr nm)
  show ?thesis
  proof (cases "create_key L w s adm nm")
    case (Inl e)
    with Inr assms show ?thesis by (auto simp: createKey_def ajaxPre_def)
  next
    case c: (Inr x)
    then obtain k raw_key s1 where x: "x = ((k, raw_key), s1)" by (metis surj_pair)
    with c have ck: "create_key L w s adm nm = Inr ((k, raw_key), s1)" by simp
    with Inr assms have r: "resp = Created raw_key (key_id k) nm (key_prefix k) (created_at k)"
      and s1: "s' = s1" by (auto simp: createKey_def)
    note f = create_key_Inr [OF ck]
    from f have "rows s1 = rows s @ [k]" "next_id s1 = next_id s + 1" by simp_all
    moreover from f have "hash_key L raw_key = Inr (key_hash k)" by (simp add: hash_key_def)
    moreover from f have "key_prefix k = get_prefix raw_key" by (metis api_key.select_convs(4))
    then have "key_prefix k = take 12 raw_key" by (simp add: get_prefix_take)
    moreover from f have "key_id k = next_id s" by (metis api_key.select_convs(1))
    moreover from f have "admin k = adm" by (metis api_key.select_convs(2))
    moreover from f have "created_at k = now w" by (metis api_key.select_convs(6))
    moreover from f have "last_used k = None" by (metis api_key.select_convs(7))
    moreover from f have "is_active k" by (metis api_key.select_convs(8))
    ultimately show ?thesis using r s1 by blast
  qed
qed

text \<open>
  Claim C4. When the generation of the secret or its digest fails, \<^verbatim>\<open>createKey\<close>
  leaves the table as it is and answers with status 0 and the message of the failure.
  Every call either answers with status 0 and leaves the table as it is, or appends
  exactly one complete row and answers with the raw key whose digest and prefix the row
  stores.
\<close>

theorem createKey_all_or_nothing:
  "(token_urlsafe w = Inl e \<or> (token_urlsafe w = Inr t \<and> hash_key L (''cp_'' @ t) = Inl e) \<longrightarrow>
      snd (createKey L w s adm data) = s \<and> status (fst (createKey L w s adm data)) = 0 \<and>
      (\<forall>nm. py_get data ''name'' (PStr ''Unnamed Key'') = Inr nm \<longrightarrow>
         createKey L w s adm data = (AjaxPre 0 (str_e e), s))) \<and>
   (createKey L w s adm data = (resp, s') \<longrightarrow>
      (\<exists>m. resp = AjaxPre 0 m \<and> s' = s) \<or>
      (\<exists>raw_key k nm. resp = Created raw_key (key_id k) nm (key_prefix k) (created_at k) \<and>
         rows s' = rows s @ [k] \<and> next_id s' = next_id s + 1 \<and>
         hash_key L raw_key = Inr (key_hash k) \<and> key_prefix k = take 12 raw_key \<and>
         key_id k = next_id s \<and> admin k = adm \<and> created_at k = now w \<and>
         last_used k = None \<and> is_active k))"
  using createKey_generation_fails [of w e L s adm data]
    createKey_digest_fails [of w t L e s adm data]
    createKey_cases [of L w s adm data resp s']
  by blast

theorem createKey_all_or_nothing_witness:
  "token_urlsafe ex_world_no_entropy = Inl (Exc ''urandom is not available'') \<and>
   createKey ex_libs ex_world_no_entropy ex_store1 2 (PDict []) =
     (AjaxPre 0 ''urandom is not available'', ex_store1) \<and>
   token_urlsafe ex_world2 = Inr ex_token2 \<and>
   hash_key ex_libs_no_digest (''cp_'' @ ex_token2) = Inl (Exc ''unsupported hash type sha256'') \<and>
   createKey ex_libs_no_digest ex_world2 ex_store1 2 (PDict []) =
     (AjaxPre 0 ''unsupported hash type sha256'', ex_store1) \<and>
   createKey ex_libs ex_world2 ex_store1 2 (PDict []) =
     (Created ex_raw2 2 (PStr ''Unnamed Key'') ''cp_yMnKy8zNz'' 2000, ex_store2) \<and>
   rows ex_store2 = rows ex_store1 @ [ex_row2] \<and>
   hash_key ex_libs ex_raw2 = Inr (key_hash ex_row2)"
  using createKey_all_or_nothing [where w = ex_world_no_entropy and L = ex_libs
      and e = "Exc ''urandom is not available''" and s = ex_store1 and adm = 2
      and data = "PDict []"]
    createKey_all_or_nothing [where w = ex_world2 and L = ex_libs_no_digest
      and e = "Exc ''unsupported hash type sha256''" and t = ex_token2 and s = ex_store1
      and adm = 2 and data = "PDict []"]
    createKey_all_or_nothing [where w = ex_world2 and L = ex_libs and s = ex_store1
      and adm = 2 and data = "PDict []"
      and resp = "Created ex_raw2 2 (PStr ''Unnamed Key'') ''cp_yMnKy8zNz'' 2000"
      and s' = ex_store2]
  by (simp add: model_defs ex_defs)

section \<open>Toggling and deleting a key\<close>

lemma get_by_id_absent:
  assumes "\<forall>r\<in>set (rows s). key_id r = n \<longrightarrow> admin r \<noteq> adm"
  shows "get_by_id L s (PInt n) adm = Inl DoesNotExist"
proof -
  from assms have "filter (\<lambda>r. key_id r = n \<and> admin r = adm) (rows s) = []"
    by (auto simp: filter_empty_conv)
  then show ?thesis by (simp add: get_by_id_def objects_get_none)
qed

lemma same_id_same_row:
  assumes "distinct (map key_id xs)" and "x \<in> set xs" and "y \<in> set xs"
    and "key_id x = key_id y"
  shows "x = y"
proof -
  from assms(1) have "inj_on key_id (set xs)" by (simp add: distinct_map)
  with assms(2-4) show ?thesis by (auto dest: inj_onD)
qed

lemma get_by_id_other_owner:
  assumes "distinct (map key_id (rows s))" and "k \<in> set (rows s)" and "admin k \<noteq> adm"
  shows "get_by_id L s (PInt (key_id k)) adm = Inl DoesNotExist"
proof (rule get_by_id_absent, intro ballI impI)
  fix r assume "r \<in> set (rows s)" and "key_id r = key_id k"
  with assms(1,2) have "r = k" by (auto intro: same_id_same_row)
  with assms(3) show "admin r \<noteq> adm" by simp
qed

lemma get_by_id_owned:
  assumes "distinct (map key_id (rows s))" and "k \<in> set (rows s)" and "admin k = adm"
  shows "get_by_id L s (PInt (key_id k)) adm = Inr k"
proof -
  have "filter (\<lambda>y. key_id y = key_id k) (rows s) = [k]"
    using assms(1,2) by (rule filter_distinct_key)
  then have "filter (\<lambda>y. admin y = adm) (filter (\<lambda>y. key_id y = key_id k) (rows s)) = [k]"
    using assms(3) by simp
  then have "filter (\<lambda>r. key_id r = key_id k \<and> admin r = adm) (rows s) = [k]"
    by (simp add: conj_commute)
  then show ?thesis by (simp add: get_by_id_def objects_get_single)
qed

lemma revokeKey_lookup_fails:
  assumes "py_get data ''keyID'' PNone = Inr v" and "get_by_id L s v adm = Inl e"
  shows "revokeKey L w s adm data = (handle e, s)"
  using assms by (simp add: revokeKey_def)

lemma deleteKey_lookup_fails:
  assumes "py_get data ''keyID'' PNone = Inr v" and "get_by_id L s v adm = Inl e"
  shows "deleteKey L w s adm data = (handle e, s)"
  using assms by (simp add: deleteKey_def)

text \<open>
  Claim C5. For a key id that no row carries, and for a key id whose row belongs to
  another administrator, \<^verbatim>\<open>revokeKey\<close> and \<^verbatim>\<open>deleteKey\<close> give the same answer:
  status 0 with the message \<^verbatim>\<open>API key not found\<close>, and the table stays as it is.
\<close>

theorem not_found_indistinguishable:
  assumes "py_get data ''keyID'' PNone = Inr (PInt n)"
    and "\<forall>r\<in>set (rows s1). key_id r \<noteq> n"
    and "wf_store s2" and "k \<in> set (rows s2)" and "key_id k = n" and "admin k \<noteq> adm"
  shows "revokeKey L w1 s1 adm data = (AjaxPre 0 ''API key not found'', s1) \<and>
         revokeKey L w2 s2 adm data = (AjaxPre 0 ''API key not found'', s2) \<and>
         deleteKey L w1 s1 adm data = (AjaxPre 0 ''API key not found'', s1) \<and>
         deleteKey L w2 s2 adm data = (AjaxPre 0 ''API key not found'', s2) \<and>
         fst (revokeKey L w1 s1 adm data) = fst (revokeKey L w2 s2 adm data) \<and>
         fst (deleteKey L w1 s1 adm data) = fst (deleteKey L w2 s2 adm data)"
proof -
  from assms(2) have g1: "get_by_id L s1 (PInt n) adm = Inl DoesNotExist"
    by (simp add: get_by_id_absent)
  from assms(3) have "distinct (map key_id (rows s2))" by (simp add: wf_store_def)
  from get_by_id_other_owner [OF this assms(4) assms(6)] assms(5)
  have g2: "get_by_id L s2 (PInt n) adm = Inl DoesNotExist" by simp
  from revokeKey_lookup_fails [OF assms(1) g1] revokeKey_lookup_fails [OF assms(1) g2]
    deleteKey_lookup_fails [OF assms(1) g1] deleteKey_lookup_fails [OF assms(1) g2]
  show ?thesis by (simp add: ajaxPre_def)
qed

theorem not_found_indistinguishable_witness:
  "py_get (PDict [(''keyID'', PInt 2)]) ''keyID'' PNone = Inr (PInt 2) \<and>
   2 \<notin> set (map key_id (rows ex_store1)) \<and>
   wf_store ex_store2 \<and> ex_row2 \<in> set (rows ex_store2) \<and> key_id ex_row2 = 2 \<and>
   admin ex_row2 \<noteq> 1 \<and>
   revokeKey ex_libs ex_world1 ex_store1 1 (PDict [(''keyID'', PInt 2)]) =
     (AjaxPre 0 ''API key not found'', ex_store1) \<and>
   revokeKey ex_libs ex_world1 ex_store2 1 (PDict [(''keyID'', PInt 2)]) =
     (AjaxPre 0 ''API key not found'', ex_store2) \<and>
   deleteKey ex_libs ex_world1 ex_store1 1 (PDict [(''keyID'', PInt 2)]) =
     (AjaxPre 0 ''API key not found'', ex_store1) \<and>
   deleteKey ex_libs ex_world1 ex_store2 1 (PDict [(''keyID'', PInt 2)]) =
     (AjaxPre 0 ''API key not found'', ex_store2)"
proof -
  have h: "py_get (PDict [(''keyID'', PInt 2)]) ''keyID'' PNone = Inr (PInt 2)"
    "\<forall>r\<in>set (rows ex_store1). key_id r \<noteq> 2"
    "wf_store ex_store2" "ex_row2 \<in> set (rows ex_store2)" "key_id ex_row2 = 2"
    "admin ex_row2 \<noteq> 1"
    by (simp_all add: model_defs ex_defs)
  from h(2) have n: "2 \<notin> set (map key_id (rows ex_store1))" by auto
  from not_found_indistinguishable [OF h, of ex_libs ex_world1 ex_world1] h n
  show ?thesis by simp
qed

subsection \<open>Toggling twice\<close>

lemma save_rows_ids:
  "key_id k' = key_id k \<Longrightarrow>
     map key_id (map (\<lambda>r. if key_id r = key_id k then k' else r) xs) = map key_id xs"
  by (induction xs) auto

lemma save_replaces:
  assumes "k \<in> set xs"
  shows "k' \<in> set (map (\<lambda>r. if key_id r = key_id k then k' else r) xs)"
  using assms by (induction xs) auto

lemma save_same_row:
  assumes "distinct (map key_id xs)" and "k \<in> set xs"
  shows "map (\<lambda>r. if key_id r = key_id k then k else r) xs = xs"
proof -
  have "\<forall>r\<in>set xs. (if key_id r = key_id k then k else r) = r"
    using assms by (auto intro: same_id_same_row)
  then show ?thesis by (simp add: map_idI)
qed

lemma revokeKey_owned:
  assumes "distinct (map key_id (rows s))" and "k \<in> set (rows s)" and "admin k = adm"
    and "py_get data ''keyID'' PNone = Inr (PInt (key_id k))" and "db_failure w = None"
  shows "revokeKey L w s adm data =
           (Toggled (\<not> is_active k),
            s\<lparr>rows := map (\<lambda>r. if key_id r = key_id k
                                    then k\<lparr>is_active := \<not> is_active k\<rparr> else r) (rows s)\<rparr>)"
  using assms(4,5) get_by_id_owned [OF assms(1-3), of L]
  by (simp add: revokeKey_def save_def Let_def)

text \<open>
  Claim C7. For a key of the caller, \<^verbatim>\<open>revokeKey\<close> answers the negation of the
  flag it found and stores it; a second call answers the original flag and leaves the
  table exactly as it was before the first. Both calls run while the database accepts
  the write.
\<close>

theorem revokeKey_twice:
  assumes "wf_store s" and "k \<in> set (rows s)" and "admin k = adm"
    and "py_get data ''keyID'' PNone = Inr (PInt (key_id k))"
    and "db_failure w1 = None" and "db_failure w2 = None"
  shows "\<exists>s1. revokeKey L w1 s adm data = (Toggled (\<not> is_active k), s1) \<and>
              k\<lparr>is_active := \<not> is_active k\<rparr> \<in> set (rows s1) \<and>
              revokeKey L w2 s1 adm data = (Toggled (is_active k), s)"
proof -
  let ?k' = "k\<lparr>is_active := \<not> is_active k\<rparr>"
  let ?s1 = "s\<lparr>rows := map (\<lambda>r. if key_id r = key_id k then ?k' else r) (rows s)\<rparr>"
  from assms(1) have d: "distinct (map key_id (rows s))" by (simp add: wf_store_def)
  have r1: "revokeKey L w1 s adm data = (Toggled (\<not> is_active k), ?s1)"
    using d assms(2,3,4,5) by (rule revokeKey_owned)
  have id: "key_id ?k' = key_id k" by simp
  have d1: "distinct (map key_id (rows ?s1))"
    using d by (simp add: save_rows_ids [OF id] del: map_map)
  have in1: "?k' \<in> set (rows ?s1)"
    using assms(2) by (simp add: save_replaces del: map_map)
  have adm1: "admin ?k' = adm" using assms(3) by simp
  have py1: "py_get data ''keyID'' PNone = Inr (PInt (key_id ?k'))" using assms(4) by simp
  have r2: "revokeKey L w2 ?s1 adm data =
      (Toggled (\<not> is_active ?k'),
       ?s1\<lparr>rows := map (\<lambda>r. if key_id r = key_id ?k'
                                 then ?k'\<lparr>is_active := \<not> is_active ?k'\<rparr> else r) (rows ?s1)\<rparr>)"
    using d1 in1 adm1 py1 assms(6) by (rule revokeKey_owned)
  have bk: "?k'\<lparr>is_active := \<not> is_active ?k'\<rparr> = k" by simp
  have "map (\<lambda>r. if key_id r = key_id k then k else r)
          (map (\<lambda>r. if key_id r = key_id k then ?k' else r) (rows s)) =
        map (\<lambda>r. if key_id r = key_id k then k else r) (rows s)"
    by (induction "rows s") auto
  also have "\<dots> = rows s" using d assms(2) by (rule save_same_row)
  finally have m: "map (\<lambda>r. if key_id r = key_id k then k else r) (rows ?s1) = rows s"
    by (simp del: map_map)
  have "?s1\<lparr>rows := map (\<lambda>r. if key_id r = key_id ?k'
         then ?k'\<lparr>is_active := \<not> is_active ?k'\<rparr> else r) (rows ?s1)\<rparr> =
        ?s1\<lparr>rows := map (\<lambda>r. if key_id r = key_id k then k else r) (rows ?s1)\<rparr>"
    by (simp only: bk id)
  also have "\<dots> = s" by (simp only: m) simp
  finally have "?s1\<lparr>rows := map (\<lambda>r. if key_id r = key_id ?k'
         then ?k'\<lparr>is_active := \<not> is_active ?k'\<rparr> else r) (rows ?s1)\<rparr> = s" .
  moreover have "(\<not> is_active ?k') = is_active k" by simp
  ultimately have "revokeKey L w2 ?s1 adm data = (Toggled (is_active k), s)"
    using r2 by (simp only:)
  with r1 in1 show ?thesis by blast
qed

theorem revokeKey_twice_witness:
  "wf_store ex_store2 \<and> ex_row1 \<in> set (rows ex_store2) \<and> admin ex_row1 = 1 \<and>
   py_get (PDict [(''keyID'', PInt 1)]) ''keyID'' PNone = Inr (PInt (key_id ex_row1)) \<and>
   db_failure ex_world1 = None \<and> db_failure ex_world2 = None \<and>
   (\<exists>s1. revokeKey ex_libs ex_world1 ex_store2 1 (PDict [(''keyID'', PInt 1)]) =
            (Toggled False, s1) \<and>
          ex_row1_off \<in> set (rows s1) \<and>
          revokeKey ex_libs ex_world2 s1 1 (PDict [(''keyID'', PInt 1)]) =
            (Toggled True, ex_store2))"
proof -
  have h: "wf_store ex_store2" "ex_row1 \<in> set (rows ex_store2)" "admin ex_row1 = 1"
    "py_get (PDict [(''keyID'', PInt 1)]) ''keyID'' PNone = Inr (PInt (key_id ex_row1))"
    "db_failure ex_world1 = None" "db_failure ex_world2 = None"
    by (simp_all add: model_defs ex_defs)
  have a: "is_active ex_row1" by (simp add: ex_defs)
  from revokeKey_twice [OF h, of ex_libs] h a show ?thesis
    by (simp add: ex_row1_off_def)
qed

subsection \<open>Malformed payloads\<close>

text \<open>
  Claim C8 says that a payload without the required field \<^verbatim>\<open>keyID\<close> is answered
  with the descriptive message of a validation failure. The source reads the field with
  \<^verbatim>\<open>data.get('keyID')\<close>, which gives \<^verbatim>\<open>None\<close>, and looks the key up with it: the
  answer is the one for an unknown key.
\<close>

theorem missing_keyID_answers_not_found:
  "revokeKey ex_libs ex_world2 ex_store2 1 (PDict []) =
     (AjaxPre 0 ''API key not found'', ex_store2) \<and>
   deleteKey ex_libs ex_world2 ex_store2 1 (PDict []) =
     (AjaxPre 0 ''API key not found'', ex_store2) \<and>
   revokeKey ex_libs ex_world2 ex_store2 1 (PDict [(''keyID'', PInt 99)]) =
     revokeKey ex_libs ex_world2 ex_store2 1 (PDict []) \<and>
   deleteKey ex_libs ex_world2 ex_store2 1 (PDict [(''keyID'', PInt 99)]) =
     deleteKey ex_libs ex_world2 ex_store2 1 (PDict [])"
  by (simp add: model_defs ex_defs)

lemma py_get_not_dict:
  "type_name data \<noteq> ''dict'' \<Longrightarrow>
     py_get data k d =
       Inl (Exc (CHR 0x27 # type_name data @ CHR 0x27 # '' object has no attribute 'get'' @ [CHR 0x27]))"
  by (cases data) simp_all

lemma get_by_id_PNone: "get_by_id L s PNone adm = Inl DoesNotExist"
  by (simp add: get_by_id_def)

lemma get_by_id_unconvertible:
  assumes "v \<noteq> PNone" and "type_name v \<noteq> ''int''" and "int_of L v = Inl e"
  shows "get_by_id L s v adm = Inl e"
  using assms by (cases v) (simp_all add: get_by_id_def)

text \<open>
  Claim C8, amended. \<^verbatim>\<open>revokeKey\<close> and \<^verbatim>\<open>deleteKey\<close> answer a payload whose
  \<^verbatim>\<open>keyID\<close> is missing or null with status 0 and \<^verbatim>\<open>API key not found\<close>. A
  \<^verbatim>\<open>keyID\<close> that the id field cannot convert to an integer, and a payload that is
  not a dictionary, are answered with status 0 and the message of the exception raised.
\<close>

theorem malformed_payload_reported:
  "(map_of kvs ''keyID'' = None \<or> map_of kvs ''keyID'' = Some PNone \<longrightarrow>
      revokeKey L w s adm (PDict kvs) = (AjaxPre 0 ''API key not found'', s) \<and>
      deleteKey L w s adm (PDict kvs) = (AjaxPre 0 ''API key not found'', s)) \<and>
   (map_of kvs ''keyID'' = Some v \<and> v \<noteq> PNone \<and> type_name v \<noteq> ''int'' \<and>
    int_of L v = Inl (Exc m) \<longrightarrow>
      revokeKey L w s adm (PDict kvs) = (AjaxPre 0 m, s) \<and>
      deleteKey L w s adm (PDict kvs) = (AjaxPre 0 m, s)) \<and>
   (type_name data \<noteq> ''dict'' \<longrightarrow>
      (let msg = CHR 0x27 # type_name data @ CHR 0x27 # '' object has no attribute 'get'' @ [CHR 0x27]
       in revokeKey L w s adm data = (AjaxPre 0 msg, s) \<and>
          deleteKey L w s adm data = (AjaxPre 0 msg, s) \<and>
          createKey L w s adm data = (AjaxPre 0 msg, s)))"
proof (intro conjI impI)
  assume a: "map_of kvs ''keyID'' = None \<or> map_of kvs ''keyID'' = Some PNone"
  then have p: "py_get (PDict kvs) ''keyID'' PNone = Inr PNone" by auto
  from revokeKey_lookup_fails [OF p get_by_id_PNone]
  show "revokeKey L w s adm (PDict kvs) = (AjaxPre 0 ''API key not found'', s)"
    by (simp add: ajaxPre_def)
  from deleteKey_lookup_fails [OF p get_by_id_PNone]
  show "deleteKey L w s adm (PDict kvs) = (AjaxPre 0 ''API key not found'', s)"
    by (simp add: ajaxPre_def)
next
  assume a: "map_of kvs ''keyID'' = Some v \<and> v \<noteq> PNone \<and> type_name v \<noteq> ''int'' \<and>
    int_of L v = Inl (Exc m)"
  then have p: "py_get (PDict kvs) ''keyID'' PNone = Inr v" by simp
  from a have g: "get_by_id L s v adm = Inl (Exc m)" by (simp add: get_by_id_unconvertible)
  from revokeKey_lookup_fails [OF p g]
  show "revokeKey L w s adm (PDict kvs) = (AjaxPre 0 m, s)" by (simp add: ajaxPre_def)
  from deleteKey_lookup_fails [OF p g]
  show "deleteKey L w s adm (PDict kvs) = (AjaxPre 0 m, s)" by (simp add: ajaxPre_def)
next
  assume a: "type_name data \<noteq> ''dict''"
  show "let msg = CHR 0x27 # type_name data @ CHR 0x27 # '' object has no attribute 'get'' @ [CHR 0x27]
       in revokeKey L w s adm data = (AjaxPre 0 msg, s) \<and>
          deleteKey L w s adm data = (AjaxPre 0 msg, s) \<and>
          createKey L w s adm data = (AjaxPre 0 msg, s)"
    by (simp add: Let_def revokeKey_def deleteKey_def createKey_def ajaxPre_def
        py_get_not_dict [OF a])
qed

theorem malformed_payload_reported_witness:
  "map_of ([] :: (string \<times> pyval) list) ''keyID'' = None \<and>
   revokeKey ex_libs ex_world2 ex_store2 1 (PDict []) = (AjaxPre 0 ''API key not found'', ex_store2) \<and>
   deleteKey ex_libs ex_world2 ex_store2 1 (PDict []) = (AjaxPre 0 ''API key not found'', ex_store2) \<and>
   map_of [(''keyID'', PStr ''abc'')] ''keyID'' = Some (PStr ''abc'') \<and>
   int_of ex_libs (PStr ''abc'') = Inl (Exc ''Field 'id' expected a number but got 'abc'.'') \<and>
   revokeKey ex_libs ex_world2 ex_store2 1 (PDict [(''keyID'', PStr ''abc'')]) =
     (AjaxPre 0 ''Field 'id' expected a number but got 'abc'.'', ex_store2) \<and>
   deleteKey ex_libs ex_world2 ex_store2 1 (PDict [(''keyID'', PStr ''abc'')]) =
     (AjaxPre 0 ''Field 'id' expected a number but got 'abc'.'', ex_store2) \<and>
   type_name (PList []) \<noteq> ''dict'' \<and>
   revokeKey ex_libs ex_world2 ex_store2 1 (PList []) =
     (AjaxPre 0 (CHR 0x27 # ''list'' @ CHR 0x27 # '' object has no attribute 'get'' @ [CHR 0x27]),
      ex_store2)"
  using malformed_payload_reported [where kvs = "[]" and L = ex_libs and w = ex_world2
      and s = ex_store2 and adm = 1]
    malformed_payload_reported [where kvs = "[(''keyID'', PStr ''abc'')]" and v = "PStr ''abc''"
      and m = "''Field 'id' expected a number but got 'abc'.''"
      and L = ex_libs and w = ex_world2 and s = ex_store2 and adm = 1]
    malformed_payload_reported [where data = "PList []" and L = ex_libs and w = ex_world2
      and s = ex_store2 and adm = 1]
  by (simp add: ex_libs_def ex_int_of_def Let_def)

section \<open>What a validation writes\<close>

text \<open>
  Claim C10. A successful \<^verbatim>\<open>validate_key\<close> returns a stored row with a new
  \<^verbatim>\<open>last_used\<close> and all its other fields as stored; the table afterwards is the
  table before with that one row replaced, and the counter is unchanged.
\<close>

theorem validate_key_frame:
  assumes "wf_store s" and "validate_key L w s raw_key = Inr (Some k', s')"
  shows "\<exists>k\<in>set (rows s).
           k' = k\<lparr>last_used := Some (now w)\<rparr> \<and>
           key_id k' = key_id k \<and> admin k' = admin k \<and> key_hash k' = key_hash k \<and>
           key_prefix k' = key_prefix k \<and> name k' = name k \<and>
           created_at k' = created_at k \<and> is_active k' = is_active k \<and>
           rows s' = map (\<lambda>r. if r = k then k' else r) (rows s) \<and>
           next_id s' = next_id s"
proof -
  from validate_key_Some [OF assms(2)] obtain k h where
    f: "filter (\<lambda>r. key_hash r = h \<and> is_active r) (rows s) = [k]"
    and k': "k' = k\<lparr>last_used := Some (now w)\<rparr>"
    and s': "s' = s\<lparr>rows := map (\<lambda>r. if key_id r = key_id k
                                     then r\<lparr>last_used := Some (now w)\<rparr> else r) (rows s)\<rparr>"
    by blast
  from f have "k \<in> set (filter (\<lambda>r. key_hash r = h \<and> is_active r) (rows s))" by simp
  then have kin: "k \<in> set (rows s)" by simp
  from assms(1) have d: "distinct (map key_id (rows s))" by (simp add: wf_store_def)
  have "\<forall>r\<in>set (rows s). (if key_id r = key_id k then r\<lparr>last_used := Some (now w)\<rparr> else r) =
                            (if r = k then k' else r)"
    using d kin k' by (auto dest: same_id_same_row)
  then have "map (\<lambda>r. if key_id r = key_id k then r\<lparr>last_used := Some (now w)\<rparr> else r) (rows s) =
             map (\<lambda>r. if r = k then k' else r) (rows s)"
    by (simp cong: map_cong)
  with s' have "rows s' = map (\<lambda>r. if r = k then k' else r) (rows s)" "next_id s' = next_id s"
    by simp_all
  with kin k' show ?thesis by auto
qed

theorem validate_key_frame_witness:
  "wf_store ex_store2 \<and>
   validate_key ex_libs ex_world2 ex_store2 ex_raw1 =
     Inr (Some (ex_row1\<lparr>last_used := Some 2000\<rparr>),
          \<lparr>rows = [ex_row1\<lparr>last_used := Some 2000\<rparr>, ex_row2], next_id = 3\<rparr>) \<and>
   (\<exists>k\<in>set (rows ex_store2).
       ex_row1\<lparr>last_used := Some 2000\<rparr> = k\<lparr>last_used := Some (now ex_world2)\<rparr> \<and>
       rows \<lparr>rows = [ex_row1\<lparr>last_used := Some 2000\<rparr>, ex_row2], next_id = 3\<rparr> =
         map (\<lambda>r. if r = k then ex_row1\<lparr>last_used := Some 2000\<rparr> else r) (rows ex_store2) \<and>
       next_id \<lparr>rows = [ex_row1\<lparr>last_used := Some 2000\<rparr>, ex_row2], next_id = 3\<rparr> =
         next_id ex_store2)"
proof -
  have h: "wf_store ex_store2"
    "validate_key ex_libs ex_world2 ex_store2 ex_raw1 =
     Inr (Some (ex_row1\<lparr>last_used := Some 2000\<rparr>),
          \<lparr>rows = [ex_row1\<lparr>last_used := Some 2000\<rparr>, ex_row2], next_id = 3\<rparr>)"
    by (simp_all add: model_defs ex_defs)
  from validate_key_frame [OF h] h show ?thesis by blast
qed

section \<open>Listing the keys of an administrator\<close>

lemma insort_key_map:
  "insort_key f (u x) (map u xs) = map u (insort_key (\<lambda>y. f (u y)) x xs)"
  by (induction xs) simp_all

lemma sort_key_map:
  "sort_key f (map u xs) = map u (sort_key (\<lambda>y. f (u y)) xs)"
  by (induction xs) (simp_all add: insort_key_map)

lemma summary_key_hash: "summary (k\<lparr>key_hash := h\<rparr>) = summary k"
  by (simp add: summary_def)

lemma listKeys_key_hash:
  "fst (listKeys (s\<lparr>rows := map (\<lambda>k. k\<lparr>key_hash := g k\<rparr>) (rows s)\<rparr>) adm) =
   fst (listKeys s adm)"
proof -
  let ?u = "\<lambda>k. k\<lparr>key_hash := g k\<rparr>"
  have "objects_filter_admin (s\<lparr>rows := map ?u (rows s)\<rparr>) adm =
        sort_key (\<lambda>k. - created_at k) (map ?u (filter (\<lambda>k. admin k = adm) (rows s)))"
    by (simp add: objects_filter_admin_def filter_map comp_def)
  also have "\<dots> = map ?u (objects_filter_admin s adm)"
    by (simp add: sort_key_map objects_filter_admin_def)
  finally show ?thesis
    by (simp add: listKeys_def summary_key_hash comp_def)
qed

lemma objects_filter_admin_sorted:
  "sorted_wrt (\<lambda>a b. created_at a \<ge> created_at b) (objects_filter_admin s adm)"
proof -
  have "sorted (map (\<lambda>k. - created_at k) (objects_filter_admin s adm))"
    by (simp add: objects_filter_admin_def)
  then show ?thesis by (simp add: sorted_wrt_map)
qed

lemma objects_filter_admin_mset:
  "mset (objects_filter_admin s adm) = mset (filter (\<lambda>k. admin k = adm) (rows s))"
  by (simp add: objects_filter_admin_def)

lemma listKeys_same_prefix:
  assumes "createKey L w1 s adm data = (Created r1 i1 n1 p1 t1, sa)"
    and "createKey L w2 s adm data = (Created r2 i2 n2 p2 t2, sb)"
    and "now w1 = now w2" and "take 12 r1 = take 12 r2"
  shows "fst (listKeys sa adm') = fst (listKeys sb adm')"
proof -
  let ?e = "\<lambda>k. k\<lparr>key_hash := []\<rparr>"
  from createKey_Created [OF assms(1)] obtain ka where
    na: "py_get data ''name'' (PStr ''Unnamed Key'') = Inr n1"
    and ca: "create_key L w1 s adm n1 = Inr ((ka, r1), sa)" by blast
  from createKey_Created [OF assms(2)] obtain kb where
    nb: "py_get data ''name'' (PStr ''Unnamed Key'') = Inr n2"
    and cb0: "create_key L w2 s adm n2 = Inr ((kb, r2), sb)" by blast
  from na nb have n: "n2 = n1" by simp
  with cb0 have cb: "create_key L w2 s adm n1 = Inr ((kb, r2), sb)" by simp
  note fa = create_key_Inr [OF ca] and fb = create_key_Inr [OF cb]
  from fa have ka: "?e ka = \<lparr> key_id = next_id s, admin = adm, key_hash = [],
           key_prefix = take 12 r1,
           name = (case n1 of PStr x \<Rightarrow> x | _ \<Rightarrow> str_of L n1),
           created_at = now w1, last_used = None, is_active = True \<rparr>"
    by (metis (no_types, lifting) api_key.update_convs(3) get_prefix_take)
  from fb have kb: "?e kb = \<lparr> key_id = next_id s, admin = adm, key_hash = [],
           key_prefix = take 12 r2,
           name = (case n1 of PStr x \<Rightarrow> x | _ \<Rightarrow> str_of L n1),
           created_at = now w2, last_used = None, is_active = True \<rparr>"
    by (metis (no_types, lifting) api_key.update_convs(3) get_prefix_take)
  from ka kb assms(3,4) have e: "?e ka = ?e kb" by simp
  from fa have sa: "sa = s\<lparr>rows := rows s @ [ka], next_id := next_id s + 1\<rparr>" by simp
  from fb have sb: "sb = s\<lparr>rows := rows s @ [kb], next_id := next_id s + 1\<rparr>" by simp
  from sa sb e have "sa\<lparr>rows := map ?e (rows sa)\<rparr> = sb\<lparr>rows := map ?e (rows sb)\<rparr>"
    by simp
  then have "fst (listKeys (sa\<lparr>rows := map ?e (rows sa)\<rparr>) adm') =
             fst (listKeys (sb\<lparr>rows := map ?e (rows sb)\<rparr>) adm')" by simp
  then show ?thesis by (simp only: listKeys_key_hash)
qed

text \<open>
  Claim C6. \<^verbatim>\<open>listKeys\<close> answers with the summaries of exactly the rows of the
  administrator, the most recently created first; each summary carries the id, the name,
  the prefix followed by three dots, the creation time, the time of the last use and the
  active flag of its row. The answer does not depend on the stored hashes, and two
  creations whose raw keys differ after the twelfth character lead to the same answer.
\<close>

theorem listKeys_owner_only:
  "(\<exists>ks. listKeys s adm = (KeyList ks, s) \<and>
      mset ks = mset (map summary (filter (\<lambda>k. admin k = adm) (rows s))) \<and>
      sorted_wrt (\<lambda>a b. s_created_at a \<ge> s_created_at b) ks \<and>
      (\<forall>x\<in>set ks. \<exists>k\<in>set (rows s). admin k = adm \<and>
          s_id x = key_id k \<and> s_name x = name k \<and> s_key_preview x = key_prefix k @ ''...'' \<and>
          s_created_at x = created_at k \<and> s_last_used x = last_used k \<and>
          s_is_active x = is_active k) \<and>
      (\<forall>g. fst (listKeys (s\<lparr>rows := map (\<lambda>k. k\<lparr>key_hash := g k\<rparr>) (rows s)\<rparr>) adm) = KeyList ks)) \<and>
   (createKey L w1 s adm data = (Created r1 i1 n1 p1 t1, sa) \<and>
    createKey L w2 s adm data = (Created r2 i2 n2 p2 t2, sb) \<and>
    now w1 = now w2 \<and> take 12 r1 = take 12 r2 \<longrightarrow>
      fst (listKeys sa adm) = fst (listKeys sb adm))"
proof (intro conjI impI)
  let ?ks = "map summary (objects_filter_admin s adm)"
  have l: "listKeys s adm = (KeyList ?ks, s)" by (simp add: listKeys_def)
  have m: "mset ?ks = mset (map summary (filter (\<lambda>k. admin k = adm) (rows s)))"
    using objects_filter_admin_mset [of s adm] by (metis mset_map)
  have so: "sorted_wrt (\<lambda>a b. s_created_at a \<ge> s_created_at b) ?ks"
    using objects_filter_admin_sorted [of s adm]
    by (simp add: sorted_wrt_map summary_def)
  have "set (objects_filter_admin s adm) = set (filter (\<lambda>k. admin k = adm) (rows s))"
    using objects_filter_admin_mset [of s adm] by (metis set_mset_mset)
  then have f: "\<forall>x\<in>set ?ks. \<exists>k\<in>set (rows s). admin k = adm \<and>
          s_id x = key_id k \<and> s_name x = name k \<and> s_key_preview x = key_prefix k @ ''...'' \<and>
          s_created_at x = created_at k \<and> s_last_used x = last_used k \<and>
          s_is_active x = is_active k"
    by (auto simp: summary_def)
  have g: "\<forall>g. fst (listKeys (s\<lparr>rows := map (\<lambda>k. k\<lparr>key_hash := g k\<rparr>) (rows s)\<rparr>) adm) = KeyList ?ks"
    using l by (simp add: listKeys_key_hash)
  from l m so f g show "\<exists>ks. listKeys s adm = (KeyList ks, s) \<and>
      mset ks = mset (map summary (filter (\<lambda>k. admin k = adm) (rows s))) \<and>
      sorted_wrt (\<lambda>a b. s_created_at a \<ge> s_created_at b) ks \<and>
      (\<forall>x\<in>set ks. \<exists>k\<in>set (rows s). admin k = adm \<and>
          s_id x = key_id k \<and> s_name x = name k \<and> s_key_preview x = key_prefix k @ ''...'' \<and>
          s_created_at x = created_at k \<and> s_last_used x = last_used k \<and>
          s_is_active x = is_active k) \<and>
      (\<forall>g. fst (listKeys (s\<lparr>rows := map (\<lambda>k. k\<lparr>key_hash := g k\<rparr>) (rows s)\<rparr>) adm) = KeyList ks)"
    by blast
next
  assume "createKey L w1 s adm data = (Created r1 i1 n1 p1 t1, sa) \<and>
    createKey L w2 s adm data = (Created r2 i2 n2 p2 t2, sb) \<and>
    now w1 = now w2 \<and> take 12 r1 = take 12 r2"
  then show "fst (listKeys sa adm) = fst (listKeys sb adm)"
    using listKeys_same_prefix [of L w1 s adm data r1 i1 n1 p1 t1 sa w2 r2 i2 n2 p2 t2 sb adm]
    by blast
qed

theorem listKeys_owner_only_witness:
  "listKeys ex_store3 1 =
     (KeyList [\<lparr>s_id = 3, s_name = ''Deploy'', s_key_preview = ''cp_AAECAwQFB...'',
                 s_created_at = 3000, s_last_used = None, s_is_active = True\<rparr>,
               \<lparr>s_id = 1, s_name = ''CI Token'', s_key_preview = ''cp_AAECAwQFB...'',
                 s_created_at = 1000, s_last_used = None, s_is_active = True\<rparr>], ex_store3) \<and>
   (\<exists>ks. listKeys ex_store3 1 = (KeyList ks, ex_store3) \<and>
      mset ks = mset (map summary (filter (\<lambda>k. admin k = 1) (rows ex_store3))) \<and>
      sorted_wrt (\<lambda>a b. s_created_at a \<ge> s_created_at b) ks) \<and>
   createKey ex_libs ex_world1 ex_empty 1 (PDict [(''name'', PStr ''CI Token'')]) =
     (Created ex_raw1 1 (PStr ''CI Token'') ''cp_AAECAwQFB'' 1000, ex_store1) \<and>
   createKey ex_libs (ex_world3\<lparr>now := 1000\<rparr>) ex_empty 1 (PDict [(''name'', PStr ''CI Token'')]) =
     (Created ex_raw3 1 (PStr ''CI Token'') ''cp_AAECAwQFB'' 1000,
      \<lparr>rows = [ex_row1\<lparr>key_hash := ex_hash3\<rparr>], next_id = 2\<rparr>) \<and>
   now ex_world1 = now (ex_world3\<lparr>now := 1000\<rparr>) \<and> take 12 ex_raw1 = take 12 ex_raw3 \<and>
   ex_raw1 \<noteq> ex_raw3 \<and>
   fst (listKeys ex_store1 1) =
     fst (listKeys \<lparr>rows = [ex_row1\<lparr>key_hash := ex_hash3\<rparr>], next_id = 2\<rparr> 1)"
proof -
  have l: "listKeys ex_store3 1 =
     (KeyList [\<lparr>s_id = 3, s_name = ''Deploy'', s_key_preview = ''cp_AAECAwQFB...'',
                 s_created_at = 3000, s_last_used = None, s_is_active = True\<rparr>,
               \<lparr>s_id = 1, s_name = ''CI Token'', s_key_preview = ''cp_AAECAwQFB...'',
                 s_created_at = 1000, s_last_used = None, s_is_active = True\<rparr>], ex_store3)"
    by (simp add: model_defs ex_defs)
  have c: "createKey ex_libs ex_world1 ex_empty 1 (PDict [(''name'', PStr ''CI Token'')]) =
       (Created ex_raw1 1 (PStr ''CI Token'') ''cp_AAECAwQFB'' 1000, ex_store1) \<and>
     createKey ex_libs (ex_world3\<lparr>now := 1000\<rparr>) ex_empty 1 (PDict [(''name'', PStr ''CI Token'')]) =
       (Created ex_raw3 1 (PStr ''CI Token'') ''cp_AAECAwQFB'' 1000,
        \<lparr>rows = [ex_row1\<lparr>key_hash := ex_hash3\<rparr>], next_id = 2\<rparr>) \<and>
     now ex_world1 = now (ex_world3\<lparr>now := 1000\<rparr>) \<and> take 12 ex_raw1 = take 12 ex_raw3"
    by (simp add: model_defs ex_defs)
  have n: "ex_raw1 \<noteq> ex_raw3" by (simp add: ex_defs)
  note t = listKeys_owner_only [where s = ex_store3 and adm = 1]
    listKeys_owner_only [where s = ex_empty and adm = 1 and L = ex_libs and ?w1.0 = ex_world1
      and ?w2.0 = "ex_world3\<lparr>now := 1000\<rparr>" and data = "PDict [(''name'', PStr ''CI Token'')]"
      and ?r1.0 = ex_raw1 and ?i1.0 = 1 and ?n1.0 = "PStr ''CI Token''"
      and ?p1.0 = "''cp_AAECAwQFB''" and ?t1.0 = 1000 and sa = ex_store1
      and ?r2.0 = ex_raw3 and ?i2.0 = 1 and ?n2.0 = "PStr ''CI Token''"
      and ?p2.0 = "''cp_AAECAwQFB''" and ?t2.0 = 1000
      and sb = "\<lparr>rows = [ex_row1\<lparr>key_hash := ex_hash3\<rparr>], next_id = 2\<rparr>"]
  from t(1) have e: "\<exists>ks. listKeys ex_store3 1 = (KeyList ks, ex_store3) \<and>
      mset ks = mset (map summary (filter (\<lambda>k. admin k = 1) (rows ex_store3))) \<and>
      sorted_wrt (\<lambda>a b. s_created_at a \<ge> s_created_at b) ks" by blast
  from t(2) c have "fst (listKeys ex_store1 1) =
     fst (listKeys \<lparr>rows = [ex_row1\<lparr>key_hash := ex_hash3\<rparr>], next_id = 2\<rparr> 1)" by blast
  with l e c n show ?thesis by blast
qed

section \<open>The invariant is kept\<close>

text \<open>
  The empty table satisfies \<open>wf_store\<close>, and every operation that writes keeps it: the
  theorems that assume it speak of every table the operations can produce.
\<close>

lemma wf_store_empty: "wf_store \<lparr> rows = [], next_id = n \<rparr>"
  by (simp add: wf_store_def)

lemma create_key_wf:
  assumes "wf_store s" and "create_key L w s adm nm = Inr ((k, raw_key), s')"
  shows "wf_store s'"
proof -
  note f = create_key_Inr [OF assms(2)]
  from f have id: "key_id k = next_id s" by (metis api_key.select_convs(1))
  from f have s': "rows s' = rows s @ [k]" "next_id s' = next_id s + 1" by simp_all
  from f have h: "key_hash k \<notin> set (map key_hash (rows s))" by simp
  from assms(1) have d1: "distinct (map key_id (rows s))"
    and d2: "distinct (map key_hash (rows s))"
    and lt: "\<forall>r\<in>set (rows s). key_id r < next_id s"
    by (simp_all add: wf_store_def list_all_iff)
  from lt id have "key_id k \<notin> set (map key_id (rows s))" by auto
  with d1 d2 h lt id s' show ?thesis
    by (auto simp: wf_store_def list_all_iff)
qed

lemma createKey_wf:
  assumes "wf_store s" and "createKey L w s adm data = (resp, s')"
  shows "wf_store s'"
proof (cases "py_get data ''name'' (PStr ''Unnamed Key'')")
  case (Inl e)
  with assms show ?thesis by (simp add: createKey_def)
next
  case (Inr nm)
  show ?thesis
  proof (cases "create_key L w s adm nm")
    case (Inl e)
    with Inr assms show ?thesis by (simp add: createKey_def)
  next
    case c: (Inr x)
    then obtain k raw_key s1 where "create_key L w s adm nm = Inr ((k, raw_key), s1)"
      by (metis surj_pair)
    moreover with Inr assms(2) have "s' = s1" by (simp add: createKey_def)
    ultimately show ?thesis using assms(1) by (auto intro: create_key_wf)
  qed
qed

lemma wf_store_update:
  assumes "wf_store s"
    and "\<forall>r. key_id (f r) = key_id r \<and> key_hash (f r) = key_hash r"
  shows "wf_store (s\<lparr>rows := map f (rows s)\<rparr>)"
proof -
  from assms(2) have "map key_id (map f (rows s)) = map key_id (rows s)"
    "map key_hash (map f (rows s)) = map key_hash (rows s)" by simp_all
  with assms show ?thesis
    by (simp add: wf_store_def list_all_iff del: map_map)
qed

lemma validate_key_wf:
  assumes "wf_store s" and "validate_key L w s raw_key = Inr (x, s')"
  shows "wf_store s'"
proof (cases x)
  case None
  with assms(2) have "s' = s"
    by (auto simp: validate_key_def update_last_used_def Let_def
        split: if_splits sum.splits error.splits option.splits)
  with assms(1) show ?thesis by simp
next
  case (Some k')
  with assms(2) have "validate_key L w s raw_key = Inr (Some k', s')" by simp
  from validate_key_Some [OF this] obtain k h where
    "filter (\<lambda>r. key_hash r = h \<and> is_active r) (rows s) = [k]"
    and "s' = s\<lparr>rows := map (\<lambda>r. if key_id r = key_id k
                                     then r\<lparr>last_used := Some (now w)\<rparr> else r) (rows s)\<rparr>"
    by blast
  with assms(1) show ?thesis by (simp add: wf_store_update)
qed

lemma revokeKey_wf:
  assumes "wf_store s" and "revokeKey L w s adm data = (resp, s')"
  shows "wf_store s'"
proof (cases "\<exists>v k. py_get data ''keyID'' PNone = Inr v \<and> get_by_id L s v adm = Inr k \<and>
    db_failure w = None")
  case False
  with assms(2) have "s' = s"
    by (auto simp: revokeKey_def save_def Let_def split: sum.splits option.splits)
  with assms(1) show ?thesis by simp
next
  case True
  then obtain v k where v: "py_get data ''keyID'' PNone = Inr v"
    and k: "get_by_id L s v adm = Inr k" and d: "db_failure w = None" by blast
  let ?k' = "k\<lparr>is_active := \<not> is_active k\<rparr>"
  from assms(2) v k d have s': "s' = s\<lparr>rows := map (\<lambda>r. if key_id r = key_id k then ?k' else r) (rows s)\<rparr>"
    by (simp add: revokeKey_def save_def Let_def)
  from k have "k \<in> set (rows s)"
    by (cases v) (auto simp: get_by_id_def split: sum.splits dest: objects_get_mem)
  moreover from assms(1) have "distinct (map key_id (rows s))" by (simp add: wf_store_def)
  ultimately have "\<forall>r\<in>set (rows s). (if key_id r = key_id k then ?k' else r) =
      (if key_id r = key_id k then r\<lparr>is_active := \<not> is_active r\<rparr> else r)"
    by (auto dest: same_id_same_row)
  then have "map (\<lambda>r. if key_id r = key_id k then ?k' else r) (rows s) =
      map (\<lambda>r. if key_id r = key_id k then r\<lparr>is_active := \<not> is_active r\<rparr> else r) (rows s)"
    by (simp cong: map_cong)
  with s' assms(1) show ?thesis by (simp add: wf_store_update)
qed

lemma deleteKey_wf:
  assumes "wf_store s" and "deleteKey L w s adm data = (resp, s')"
  shows "wf_store s'"
proof (cases "\<exists>v k. py_get data ''keyID'' PNone = Inr v \<and> get_by_id L s v adm = Inr k \<and>
    db_failure w = None")
  case False
  with assms(2) have "s' = s"
    by (auto simp: deleteKey_def delete_def split: sum.splits option.splits)
  with assms(1) show ?thesis by simp
next
  case True
  then obtain v k where v: "py_get data ''keyID'' PNone = Inr v"
    and k: "get_by_id L s v adm = Inr k" and d: "db_failure w = None" by blast
  from assms(2) v k d have "s' = s\<lparr>rows := filter (\<lambda>r. key_id r \<noteq> key_id k) (rows s)\<rparr>"
    by (simp add: deleteKey_def delete_def)
  with assms(1) show ?thesis
    by (auto simp: wf_store_def list_all_iff distinct_map_filter)
qed

end
